theory Spec2Isabelle
  imports Complex_Main
begin

section \<open>Tensors, errors and shape inference\<close>

text \<open>
  A tensor is its shape together with its elements in row-major (logical) order.
  Index tensors hold Python/torch 64-bit integers, modelled as \<open>int\<close>; the numeric
  tensors hold elements of an ordered field (arithmetic is exact, rounding is not
  modelled).
\<close>

datatype error = AssertionError | RuntimeError | EinopsError | ZeroDivisionError
  | TypeError | IndexError | ValueError | AttributeError

record 'a tensor =
  shape :: "nat list"
  dat :: "'a list"

definition numel :: "'a tensor \<Rightarrow> nat" where
  "numel t = prod_list (shape t)"

definition ebind :: "error + 'a \<Rightarrow> ('a \<Rightarrow> error + 'b) \<Rightarrow> error + 'b" where
  "ebind m f = (case m of Inl e \<Rightarrow> Inl e | Inr x \<Rightarrow> f x)"

text \<open>
  \<open>infer_size\<close> is the shape inference behind \<open>reshape\<close> and \<open>view\<close>: at most one
  entry of the requested shape may be \<open>-1\<close>; it is inferred from the number of
  elements, and the request is refused when the inferred size would be ambiguous
  (the other entries multiply to zero) or the sizes do not match.
\<close>

definition infer_size :: "int list \<Rightarrow> nat \<Rightarrow> error + nat list" where
  "infer_size spec n =
     (if (\<exists>d \<in> set spec. d < -1) \<or> 1 < length (filter (\<lambda>d. d = -1) spec)
      then Inl RuntimeError
      else
        let newsize = nat (prod_list (filter (\<lambda>d. d \<noteq> -1) spec));
            infer = (-1 \<in> set spec)
        in if n = newsize \<or> (infer \<and> 0 < newsize \<and> n mod newsize = 0)
           then (if infer
                 then (if newsize = 0 then Inl RuntimeError
                       else Inr (map (\<lambda>d. if d = -1 then n div newsize else nat d) spec))
                 else Inr (map nat spec))
           else Inl RuntimeError)"

definition reshape :: "int list \<Rightarrow> 'a tensor \<Rightarrow> error + 'a tensor" where
  "reshape spec t =
     ebind (infer_size spec (numel t)) (\<lambda>s. Inr \<lparr>shape = s, dat = dat t\<rparr>)"

section \<open>The quantizer and its construction\<close>

datatype unknown = Random | Extra | Fixed int

record 'a conv =
  spatial :: nat
  in_channels :: nat
  out_channels :: nat
  weight :: "'a list list"
  bias :: "'a list"

record 'a quantizer =
  n_e :: nat
  e_dim :: nat
  beta :: 'a
  legacy :: bool
  embedding :: "'a list list"
  used :: "int list option"
  re_embed :: nat
  unknown_index :: unknown
  sane_index_shape :: bool
  quant_conv :: "'a conv"
  post_quant_conv :: "'a conv"

text \<open>
  The values of the learned parameters (drawn at random by the constructor, then
  changed by training) are inputs of the construction: \<open>emb j i\<close> is component
  \<open>i\<close> of codebook vector \<open>j\<close>, and \<open>qw\<close>, \<open>qb\<close>, \<open>pw\<close>, \<open>pb\<close> are the weights
  and biases of the two projections. The tables built from them have the sizes
  the constructor gives them: \<open>n_e\<close> codebook vectors of length \<open>e_dim\<close>.
\<close>

record 'a params =
  emb :: "nat \<Rightarrow> nat \<Rightarrow> 'a"
  qw :: "nat \<Rightarrow> nat \<Rightarrow> 'a"
  qb :: "nat \<Rightarrow> 'a"
  pw :: "nat \<Rightarrow> nat \<Rightarrow> 'a"
  pb :: "nat \<Rightarrow> 'a"

definition mk_conv :: "nat \<Rightarrow> nat \<Rightarrow> nat \<Rightarrow> (nat \<Rightarrow> nat \<Rightarrow> 'a) \<Rightarrow> (nat \<Rightarrow> 'a) \<Rightarrow> 'a conv" where
  "mk_conv sp cin cout w b =
     \<lparr>spatial = sp, in_channels = cin, out_channels = cout,
      weight = map (\<lambda>oc. map (\<lambda>c. w oc c) [0..<cin]) [0..<cout],
      bias = map b [0..<cout]\<rparr>"

text \<open>
  \<open>init\<close> is \<open>VectorQuantizer.__init__\<close>. The argument \<open>remap\<close> is the table read
  from the file named by the source's \<open>remap\<close> (\<open>None\<close> when no file is given).
  Dividing by \<open>n_e\<close> when drawing the initial codebook fails for \<open>n_e = 0\<close>.
\<close>

definition init :: "nat \<Rightarrow> nat \<Rightarrow> 'a \<Rightarrow> nat \<Rightarrow> int list option \<Rightarrow> unknown \<Rightarrow> bool \<Rightarrow> bool \<Rightarrow> bool
    \<Rightarrow> 'a params \<Rightarrow> error + 'a quantizer" where
  "init ne ed b z_channels remap unk sane leg use_voxel p =
     (if ne = 0 then Inl ZeroDivisionError
      else
        let sp = (if use_voxel then 3 else 2)
        in Inr \<lparr>n_e = ne, e_dim = ed, beta = b, legacy = leg,
                embedding = map (\<lambda>j. map (\<lambda>i. emb p j i) [0..<ed]) [0..<ne],
                used = remap,
                re_embed = (case remap of None \<Rightarrow> ne
                            | Some tbl \<Rightarrow>
                                (if unk = Extra then length tbl + 1 else length tbl)),
                unknown_index = (case remap of None \<Rightarrow> unk
                            | Some tbl \<Rightarrow>
                                (if unk = Extra then Fixed (int (length tbl)) else unk)),
                sane_index_shape = sane,
                quant_conv = mk_conv sp z_channels ed (qw p) (qb p),
                post_quant_conv = mk_conv sp ed z_channels (pw p) (pb p)\<rparr>)"

section \<open>Index remapping\<close>

text \<open>
  First-match \<open>argmax\<close> and \<open>argmin\<close> of one row, as a left-to-right scan, and
  along the last axis of a matrix (\<open>n\<close> is the size of that axis): reducing an axis
  of size 0 is refused, also when the matrix has no rows.
\<close>

fun argmax_from :: "('a::linorder) \<Rightarrow> nat \<Rightarrow> nat \<Rightarrow> 'a list \<Rightarrow> nat" where
  "argmax_from m mi i [] = mi"
| "argmax_from m mi i (x # xs) =
     (if m < x then argmax_from x i (Suc i) xs else argmax_from m mi (Suc i) xs)"

definition argmax :: "('a::linorder) list \<Rightarrow> error + nat" where
  "argmax xs = (case xs of [] \<Rightarrow> Inl IndexError | x # r \<Rightarrow> Inr (argmax_from x 0 1 r))"

fun argmin_from :: "('a::linorder) \<Rightarrow> nat \<Rightarrow> nat \<Rightarrow> 'a list \<Rightarrow> nat" where
  "argmin_from m mi i [] = mi"
| "argmin_from m mi i (x # xs) =
     (if x < m then argmin_from x i (Suc i) xs else argmin_from m mi (Suc i) xs)"

definition argmin :: "('a::linorder) list \<Rightarrow> error + nat" where
  "argmin xs = (case xs of [] \<Rightarrow> Inl IndexError | x # r \<Rightarrow> Inr (argmin_from x 0 1 r))"

text \<open>\<open>sequence\<close> collects the results of a list of fallible computations.\<close>

fun sequence :: "(error + 'a) list \<Rightarrow> error + 'a list" where
  "sequence [] = Inr []"
| "sequence (m # ms) = ebind m (\<lambda>x. ebind (sequence ms) (\<lambda>xs. Inr (x # xs)))"

definition argmax_last :: "nat \<Rightarrow> ('a::linorder) list list \<Rightarrow> error + nat list" where
  "argmax_last n m = (if n = 0 then Inl IndexError else sequence (map argmax m))"

definition argmin_last :: "nat \<Rightarrow> ('a::linorder) list list \<Rightarrow> error + nat list" where
  "argmin_last n m = (if n = 0 then Inl IndexError else sequence (map argmin m))"

text \<open>
  \<open>randint lo hi n rs\<close> is \<open>torch.randint(lo, hi, size=(n,))\<close> drawing from the
  random source \<open>rs\<close>; it refuses an empty range.
\<close>

definition randint :: "int \<Rightarrow> int \<Rightarrow> nat \<Rightarrow> (nat \<Rightarrow> nat) \<Rightarrow> error + int list" where
  "randint lo hi n rs =
     (if hi \<le> lo then Inl RuntimeError
      else Inr (map (\<lambda>j. lo + int (rs j mod nat (hi - lo))) [0..<n]))"

text \<open>\<open>masked_assign xs mask vs\<close> is \<open>xs[mask] = vs\<close>: the selected places receive
  the values of \<open>vs\<close> in order.\<close>

fun masked_assign :: "'a list \<Rightarrow> bool list \<Rightarrow> 'a list \<Rightarrow> 'a list" where
  "masked_assign (x # xs) (True # ms) (v # vs) = v # masked_assign xs ms vs"
| "masked_assign (x # xs) (False # ms) vs = x # masked_assign xs ms vs"
| "masked_assign xs ms vs = xs"

definition remap_to_used :: "'a quantizer \<Rightarrow> (nat \<Rightarrow> nat) \<Rightarrow> int tensor \<Rightarrow> error + int tensor" where
  "remap_to_used q rs inds0 =
     (let ishape = shape inds0 in
      if \<not> 1 < length ishape then Inl AssertionError
      else ebind (reshape [int (ishape ! 0), -1] inds0) (\<lambda>inds.
        case used q of None \<Rightarrow> Inl AttributeError | Some tbl \<Rightarrow>
        let match = map (\<lambda>x. map (\<lambda>u. if x = u then (1::int) else 0) tbl) (dat inds)
        in ebind (argmax_last (length tbl) match) (\<lambda>new.
           let unk = map (\<lambda>row. sum_list row < 1) match in
           ebind (case unknown_index q of
                    Random \<Rightarrow>
                      ebind (randint 0 (int (re_embed q)) (length (filter id unk)) rs) (\<lambda>vs.
                        Inr (masked_assign (map int new) unk vs))
                  | Extra \<Rightarrow> Inl TypeError
                  | Fixed u \<Rightarrow> Inr (map (\<lambda>(n, b). if b then u else int n) (zip new unk)))
             (\<lambda>new'. reshape (map int ishape) \<lparr>shape = shape inds, dat = new'\<rparr>))))"

definition gather :: "int list \<Rightarrow> int list \<Rightarrow> error + int list" where
  "gather tbl inds =
     (if \<forall>i \<in> set inds. 0 \<le> i \<and> i < int (length tbl)
      then Inr (map (\<lambda>i. tbl ! nat i) inds) else Inl RuntimeError)"

definition unmap_to_all :: "'a quantizer \<Rightarrow> int tensor \<Rightarrow> error + int tensor" where
  "unmap_to_all q inds0 =
     (let ishape = shape inds0 in
      if \<not> 1 < length ishape then Inl AssertionError
      else ebind (reshape [int (ishape ! 0), -1] inds0) (\<lambda>inds.
        case used q of None \<Rightarrow> Inl AttributeError | Some tbl \<Rightarrow>
        let inds' = (if length tbl < re_embed q
                     then map (\<lambda>i. if int (length tbl) \<le> i then 0 else i) (dat inds)
                     else dat inds)
        in ebind (gather tbl inds') (\<lambda>back.
             reshape (map int ishape) \<lparr>shape = shape inds, dat = back\<rparr>)))"

section \<open>Layout: permuting axes\<close>

fun unravel :: "nat list \<Rightarrow> nat \<Rightarrow> nat list" where
  "unravel [] i = []"
| "unravel (n # ns) i = (i div prod_list ns) # unravel ns (i mod prod_list ns)"

fun ravel :: "nat list \<Rightarrow> nat list \<Rightarrow> nat" where
  "ravel (n # ns) (i # js) = i * prod_list ns + ravel ns js"
| "ravel ns js = 0"

fun index_of :: "'a \<Rightarrow> 'a list \<Rightarrow> nat" where
  "index_of x [] = 0"
| "index_of x (y # ys) = (if x = y then 0 else Suc (index_of x ys))"

text \<open>
  \<open>permute dims t\<close>: axis \<open>k\<close> of the result is axis \<open>dims ! k\<close> of \<open>t\<close>; the
  element at a multi-index of the result is read from \<open>t\<close> at the multi-index
  with the axes put back.
\<close>

definition permute :: "nat list \<Rightarrow> 'a tensor \<Rightarrow> error + 'a tensor" where
  "permute dims t =
     (if length dims \<noteq> length (shape t) \<or> \<not> distinct dims
         \<or> (\<exists>d \<in> set dims. length dims \<le> d)
      then Inl RuntimeError
      else
        let newshape = map (\<lambda>d. shape t ! d) dims
        in Inr \<lparr>shape = newshape,
                dat = map (\<lambda>i. let m = unravel newshape i
                                in dat t ! ravel (shape t)
                                     (map (\<lambda>ax. m ! index_of ax dims) [0..<length dims]))
                          [0..<prod_list newshape]\<rparr>)"

text \<open>
  \<open>rearrange r dims\<close> is an einops pattern over \<open>r\<close> named axes that only reorders
  them: \<^verbatim>\<open>'b c h w -> b h w c'\<close> is \<open>rearrange 4 [0, 2, 3, 1]\<close>. The pattern is
  refused when the rank of the tensor is not \<open>r\<close>.
\<close>

definition rearrange :: "nat \<Rightarrow> nat list \<Rightarrow> 'a tensor \<Rightarrow> error + 'a tensor" where
  "rearrange r dims t = (if length (shape t) \<noteq> r then Inl EinopsError else permute dims t)"

section \<open>Projection layers\<close>

text \<open>
  A convolution with kernel size 1 is the same linear map at every position. The
  input is \<open>(batch, channels, spatial...)\<close>; an input without the batch axis is
  treated as a batch of one. Empty spatial axes and a wrong channel count are refused.
\<close>

definition conv_batched :: "('a::comm_semiring_0) conv \<Rightarrow> 'a tensor \<Rightarrow> error + 'a tensor" where
  "conv_batched c t =
     (case shape t of
        B # C # sp \<Rightarrow>
          if C \<noteq> in_channels c \<or> 0 \<in> set sp then Inl RuntimeError
          else
            let S = prod_list sp; OC = out_channels c
            in Inr \<lparr>shape = B # OC # sp,
                    dat = map (\<lambda>i. let b = i div (OC * S); oc = (i div S) mod OC; s = i mod S
                                    in bias c ! oc
                                       + sum_list (map (\<lambda>ch. weight c ! oc ! ch
                                                        * dat t ! ((b * C + ch) * S + s)) [0..<C]))
                              [0..<B * OC * S]\<rparr>
      | _ \<Rightarrow> Inl RuntimeError)"

definition conv_apply :: "('a::comm_semiring_0) conv \<Rightarrow> 'a tensor \<Rightarrow> error + 'a tensor" where
  "conv_apply c t =
     (let r = length (shape t) in
      if r = spatial c + 2 then conv_batched c t
      else if r = spatial c + 1
      then ebind (conv_batched c \<lparr>shape = 1 # shape t, dat = dat t\<rparr>)
             (\<lambda>r. Inr \<lparr>shape = tl (shape r), dat = dat r\<rparr>)
      else Inl RuntimeError)"

section \<open>Nearest-neighbour matching\<close>

definition dot :: "('a::comm_ring_1) list \<Rightarrow> 'a list \<Rightarrow> 'a" where
  "dot xs ys = sum_list (map (\<lambda>(x, y). x * y) (zip xs ys))"

definition sqnorm :: "('a::comm_ring_1) list \<Rightarrow> 'a" where
  "sqnorm xs = sum_list (map (\<lambda>x. x ^ 2) xs)"

text \<open>One row of \<open>d\<close>: the distances from \<open>v\<close> to every codebook vector.\<close>

definition distances :: "('a::comm_ring_1) list list \<Rightarrow> 'a list \<Rightarrow> 'a list" where
  "distances E v = map (\<lambda>e. sqnorm v + sqnorm e - 2 * dot v e) E"

definition rows :: "nat \<Rightarrow> nat \<Rightarrow> 'a list \<Rightarrow> 'a list list" where
  "rows n d xs = map (\<lambda>i. take d (drop (i * d) xs)) [0..<n]"

text \<open>
  \<open>nearest\<close> is the code shared by \<open>forward_quantizer\<close> and \<open>get_codebook_index\<close>:
  flatten to vectors of length \<open>e_dim\<close>, compute the distance matrix, take the
  \<open>argmin\<close> of every row.
\<close>

definition nearest :: "('a::linordered_field) quantizer \<Rightarrow> 'a tensor \<Rightarrow> error + int tensor" where
  "nearest q z =
     ebind (reshape [-1, int (e_dim q)] z) (\<lambda>z_flattened.
       let d = map (distances (embedding q))
                 (rows (shape z_flattened ! 0) (e_dim q) (dat z_flattened))
       in ebind (argmin_last (length (embedding q)) d) (\<lambda>js.
            Inr \<lparr>shape = [length js], dat = map int js\<rparr>))"

text \<open>\<open>embedding_fn\<close> is the lookup \<open>self.embedding(indices)\<close>.\<close>

definition embedding_fn :: "'a quantizer \<Rightarrow> int tensor \<Rightarrow> error + 'a tensor" where
  "embedding_fn q indices =
     (if \<forall>i \<in> set (dat indices). 0 \<le> i \<and> i < int (length (embedding q))
      then Inr \<lparr>shape = shape indices @ [e_dim q],
                dat = concat (map (\<lambda>i. embedding q ! nat i) (dat indices))\<rparr>
      else Inl IndexError)"

section \<open>Loss and straight-through estimator\<close>

text \<open>\<open>detach\<close> cuts the gradient; it leaves the values as they are.\<close>

definition detach :: "'a tensor \<Rightarrow> 'a tensor" where
  "detach t = t"

definition tmap2 :: "('a \<Rightarrow> 'a \<Rightarrow> 'a) \<Rightarrow> 'a tensor \<Rightarrow> 'a tensor \<Rightarrow> 'a tensor" where
  "tmap2 f a b = \<lparr>shape = shape a, dat = map (\<lambda>(x, y). f x y) (zip (dat a) (dat b))\<rparr>"

text \<open>The mean of no elements is not a number: \<open>None\<close>.\<close>

definition mean :: "('a::field) list \<Rightarrow> 'a option" where
  "mean xs = (if xs = [] then None else Some (sum_list xs / of_nat (length xs)))"

definition mse :: "('a::field) tensor \<Rightarrow> 'a tensor \<Rightarrow> 'a option" where
  "mse a b = mean (dat (tmap2 (\<lambda>x y. (x - y) ^ 2) a b))"

definition scale :: "('a::field) \<Rightarrow> 'a option \<Rightarrow> 'a option" where
  "scale c m = map_option (\<lambda>x. c * x) m"

definition plus :: "('a::field) option \<Rightarrow> 'a option \<Rightarrow> 'a option" where
  "plus m n = (case (m, n) of (Some x, Some y) \<Rightarrow> Some (x + y) | _ \<Rightarrow> None)"

definition compute_loss :: "('a::field) quantizer \<Rightarrow> 'a tensor \<Rightarrow> 'a tensor \<Rightarrow> 'a option" where
  "compute_loss q z z_q =
     (if \<not> legacy q
      then plus (scale (beta q) (mse (detach z_q) z)) (mse z_q (detach z))
      else plus (mse (detach z_q) z) (scale (beta q) (mse z_q (detach z))))"

section \<open>The forward pass and the lookup operations\<close>

type_synonym 'a fwd_out = "'a tensor \<times> 'a option \<times> ('a option \<times> 'a tensor option \<times> int tensor)"

definition forward_quantizer :: "('a::linordered_field) quantizer \<Rightarrow> (nat \<Rightarrow> nat) \<Rightarrow> 'a tensor
    \<Rightarrow> 'a option \<Rightarrow> bool \<Rightarrow> bool \<Rightarrow> bool \<Rightarrow> error + 'a fwd_out" where
  "forward_quantizer q rs z0 temp rescale_logits return_logits is_voxel =
     (if \<not> (temp = None \<or> temp = Some 1) then Inl AssertionError
      else if rescale_logits \<noteq> False then Inl AssertionError
      else if return_logits \<noteq> False then Inl AssertionError
      else
        ebind (if \<not> is_voxel then rearrange 4 [0, 2, 3, 1] z0
               else rearrange 5 [0, 2, 3, 4, 1] z0) (\<lambda>z.
        ebind (nearest q z) (\<lambda>min_encoding_indices.
        ebind (embedding_fn q min_encoding_indices) (\<lambda>e.
        ebind (reshape (map int (shape z)) e) (\<lambda>z_q.
        let loss = compute_loss q z z_q;
            z_q1 = tmap2 (\<lambda>x y. x + y) z (detach (tmap2 (\<lambda>x y. x - y) z_q z))
        in
        ebind (if \<not> is_voxel then rearrange 4 [0, 3, 1, 2] z_q1
               else rearrange 5 [0, 4, 1, 2, 3] z_q1) (\<lambda>z_q2.
        ebind (if used q \<noteq> None
               then ebind (reshape [int (shape z ! 0), -1] min_encoding_indices) (\<lambda>i1.
                    ebind (remap_to_used q rs i1) (\<lambda>i2. reshape [-1, 1] i2))
               else Inr min_encoding_indices) (\<lambda>indices1.
        ebind (if sane_index_shape q
               then (if \<not> is_voxel
                     then reshape (map int [shape z_q2 ! 0, shape z_q2 ! 2, shape z_q2 ! 3])
                            indices1
                     else reshape (map int [shape z_q2 ! 0, shape z_q2 ! 2, shape z_q2 ! 3,
                                            shape z_q2 ! 4]) indices1)
               else Inr indices1) (\<lambda>indices2.
        Inr (z_q2, loss, (None, None, indices2))))))))))"

definition forward :: "('a::linordered_field) quantizer \<Rightarrow> (nat \<Rightarrow> nat) \<Rightarrow> 'a tensor
    \<Rightarrow> 'a option \<Rightarrow> bool \<Rightarrow> bool \<Rightarrow> bool \<Rightarrow> error + 'a fwd_out" where
  "forward q rs z0 temp rescale_logits return_logits is_voxel =
     ebind (conv_apply (quant_conv q) z0) (\<lambda>z.
     ebind (forward_quantizer q rs z temp rescale_logits return_logits is_voxel)
       (\<lambda>(z_q, loss, info).
     ebind (conv_apply (post_quant_conv q) z_q) (\<lambda>z_q'.
     Inr (z_q', loss, info))))"



section \<open>Index tensors in a store: views and writes in place\<close>












section \<open>Predicates of the specification\<close>



section \<open>Concrete quantizers\<close>

text \<open>
  Parameters with the codebook vectors \<open>[0], [1], [2], \<dots>\<close> (constant in every
  component) and projections that sum their input channels; and quantizers built
  from them: with a remap table and the extra slot, without remap, and with a
  remap table and random assignment.
\<close>

definition ex_p :: "real params" where
  "ex_p = \<lparr>emb = (\<lambda>j i. of_nat j), qw = (\<lambda>j i. 1), qb = (\<lambda>j. 0),
           pw = (\<lambda>j i. 1), pb = (\<lambda>j. 0)\<rparr>"

definition q_extra :: "real quantizer" where
  "q_extra = projr (init 8 1 (1 / 4) 1 (Some [5, 7]) Extra False True False ex_p)"

definition q_plain :: "real quantizer" where
  "q_plain = projr (init 2 1 (1 / 4) 1 None Random True True False ex_p)"





section \<open>Basic facts\<close>

lemma ebind_Inr [simp]: "ebind (Inr x) f = f x"
  by (simp add: ebind_def)

lemma ebind_Inl [simp]: "ebind (Inl e) f = Inl e"
  by (simp add: ebind_def)

lemma ebind_eq_Inr: "ebind m f = Inr y \<longleftrightarrow> (\<exists>x. m = Inr x \<and> f x = Inr y)"
  by (cases m) auto

lemma infer_size_batch:
  assumes "s0 \<noteq> 0" "n mod s0 = 0"
  shows "infer_size [int s0, -1] n = Inr [s0, n div s0]"
  using assms by (auto simp: infer_size_def Let_def)

lemma infer_size_same: "infer_size (map int s) (prod_list s) = Inr s"
proof -
  have a: "filter (\<lambda>d. d = -1) (map int s) = []" by (induction s) auto
  have b: "filter (\<lambda>d. d \<noteq> -1) (map int s) = map int s" by (induction s) auto
  have c: "prod_list (map int s) = int (prod_list s)" by (induction s) auto
  have d: "-1 \<notin> set (map int s)" by auto
  have e: "\<not> (\<exists>d \<in> set (map int s). d < -1)" by auto
  show ?thesis unfolding infer_size_def using a b c d e
    by (simp add: Let_def comp_def del: set_map)
qed

lemma prod_list_rank2:
  assumes "1 < length (s::nat list)"
  shows "prod_list s mod (s ! 0) = 0"
  using assms by (cases s) auto

lemma prod_batch:
  assumes "1 < length (s::nat list)" "s ! 0 \<noteq> 0"
  shows "s ! 0 * (prod_list s div (s ! 0)) = prod_list s"
  using assms by (cases s) auto

lemma reshape_batch:
  assumes "1 < length (shape t)" "shape t ! 0 \<noteq> 0"
  shows "reshape [int (shape t ! 0), -1] t =
           Inr \<lparr>shape = [shape t ! 0, numel t div (shape t ! 0)], dat = dat t\<rparr>"
  using assms by (simp add: reshape_def numel_def infer_size_batch prod_list_rank2)

lemma reshape_back:
  assumes "prod_list (shape r) = prod_list s"
  shows "reshape (map int s) r = Inr \<lparr>shape = s, dat = dat r\<rparr>"
  using assms by (simp add: reshape_def numel_def infer_size_same)

lemma gather_ok:
  assumes "\<forall>i \<in> set inds. 0 \<le> i \<and> i < int (length tbl)"
  shows "gather tbl inds = Inr (map (\<lambda>i. tbl ! nat i) inds)"
  using assms by (simp add: gather_def)

lemma init_extra_fields:
  assumes "init ne ed b zc (Some tbl) Extra sane leg uv p = Inr q"
  shows "used q = Some tbl" "re_embed q = length tbl + 1"
    "unknown_index q = Fixed (int (length tbl))"
  using assms by (auto simp: init_def Let_def split: if_splits)

lemma q_extra_init:
  "init 8 1 (1 / 4) 1 (Some [5, 7]) Extra False True False ex_p = Inr q_extra"
  by (simp add: q_extra_def init_def)

section \<open>Bounds on remapped and matched indices\<close>





















section \<open>Facts about the index remapper\<close>



lemma argmax_from_one:
  "argmax_from 1 mi i (map (\<lambda>u. if x = u then (1::int) else 0) tbl) = mi"
  by (induction tbl arbitrary: i) auto

lemma argmax_from_zero:
  "argmax_from 0 mi i (map (\<lambda>u. if x = u then (1::int) else 0) tbl) =
     (if x \<in> set tbl then i + index_of x tbl else mi)"
proof (induction tbl arbitrary: i)
  case Nil
  then show ?case by simp
next
  case (Cons u tbl)
  show ?case
  proof (cases "x = u")
    case True
    then show ?thesis by (simp add: argmax_from_one)
  next
    case False
    then show ?thesis using Cons.IH [of "Suc i"] by auto
  qed
qed

lemma argmax_match:
  assumes "tbl \<noteq> []"
  shows "argmax (map (\<lambda>u. if x = u then (1::int) else 0) tbl) =
           Inr (if x \<in> set tbl then index_of x tbl else 0)"
proof (cases tbl)
  case Nil
  with assms show ?thesis by simp
next
  case (Cons u r)
  show ?thesis
  proof (cases "x = u")
    case True
    then show ?thesis using Cons by (simp add: argmax_def argmax_from_one)
  next
    case False
    then show ?thesis using Cons argmax_from_zero [of 0 1 x r] by (auto simp: argmax_def)
  qed
qed

lemma sum_match:
  "(sum_list (map (\<lambda>u. if x = u then (1::int) else 0) tbl) < 1) = (x \<notin> set tbl)"
proof -
  have nn: "0 \<le> sum_list (map (\<lambda>u. if x = u then (1::int) else 0) tbl)" for tbl
    by (induction tbl) auto
  have a: "x \<notin> set tbl \<Longrightarrow> sum_list (map (\<lambda>u. if x = u then (1::int) else 0) tbl) = 0"
    by (induction tbl) auto
  have b: "x \<in> set tbl \<Longrightarrow> 1 \<le> sum_list (map (\<lambda>u. if x = u then (1::int) else 0) tbl)"
  proof (induction tbl)
    case Nil then show ?case by simp
  next
    case (Cons u tbl)
    then show ?case using nn [of tbl] by (cases "x = u") auto
  qed
  show ?thesis using a b by fastforce
qed

lemma sequence_map_Inr:
  assumes "\<forall>x \<in> set xs. f x = Inr (g x)"
  shows "sequence (map f xs) = Inr (map g xs)"
  using assms by (induction xs) auto

lemma index_of_less: "x \<in> set xs \<Longrightarrow> index_of x xs < length xs"
  by (induction xs) auto

lemma index_of_nth: "x \<in> set xs \<Longrightarrow> xs ! index_of x xs = x"
  by (induction xs) auto

lemma index_of_first: "p < index_of x xs \<Longrightarrow> xs ! p \<noteq> x"
proof (induction xs arbitrary: p)
  case Nil then show ?case by simp
next
  case (Cons y ys)
  then show ?case by (cases p) (auto split: if_splits)
qed

lemma index_of_distinct:
  "distinct xs \<Longrightarrow> p < length xs \<Longrightarrow> index_of (xs ! p) xs = p"
proof (induction xs arbitrary: p)
  case Nil then show ?case by simp
next
  case (Cons y ys)
  then show ?case by (cases p) auto
qed

lemma remap_to_used_fixed:
  assumes u: "used q = Some tbl" and p: "unknown_index q = Fixed v" and tbl: "tbl \<noteq> []"
      and rk: "1 < length (shape t)" and b0: "shape t ! 0 \<noteq> 0"
  shows "remap_to_used q rs t =
     Inr \<lparr>shape = shape t,
          dat = map (\<lambda>x. if x \<in> set tbl then int (index_of x tbl) else v) (dat t)\<rparr>"
proof -
  let ?m = "map (\<lambda>x. map (\<lambda>u. if x = u then (1::int) else 0) tbl) (dat t)"
  have a: "argmax_last (length tbl) ?m = Inr (map (\<lambda>x. if x \<in> set tbl then index_of x tbl else 0) (dat t))"
    using tbl by (simp add: argmax_last_def comp_def argmax_match sequence_map_Inr [where g = "\<lambda>x. if x \<in> set tbl then index_of x tbl else 0"])
  have z: "map (\<lambda>(n, b). if b then v else int n)
          (zip (map (\<lambda>x. if x \<in> set tbl then index_of x tbl else 0) (dat t))
               (map (\<lambda>row. sum_list row < 1) ?m))
        = map (\<lambda>x. if x \<in> set tbl then int (index_of x tbl) else v) (dat t)"
    by (simp add: zip_map_map comp_def sum_match zip_same_conv_map)
  show ?thesis
    using rk b0 u p a z
    by (simp add: remap_to_used_def Let_def reshape_batch reshape_back numel_def prod_batch)
qed


lemma unmap_to_all_slot:
  assumes u: "used q = Some tbl" and r: "length tbl < re_embed q"
      and rk: "1 < length (shape t)" and b0: "shape t ! 0 \<noteq> 0"
      and tbl: "tbl \<noteq> []" and nn: "\<forall>i \<in> set (dat t). 0 \<le> i"
  shows "unmap_to_all q t =
     Inr \<lparr>shape = shape t,
          dat = map (\<lambda>i. if int (length tbl) \<le> i then tbl ! 0 else tbl ! nat i) (dat t)\<rparr>"
proof -
  let ?i = "map (\<lambda>i. if int (length tbl) \<le> i then 0 else i) (dat t)"
  have "\<forall>i \<in> set ?i. 0 \<le> i \<and> i < int (length tbl)"
    using nn tbl by auto
  then have g: "gather tbl ?i = Inr (map (\<lambda>i. tbl ! nat i) ?i)"
    by (rule gather_ok)
  have m: "map (\<lambda>i. tbl ! nat i) ?i =
      map (\<lambda>i. if int (length tbl) \<le> i then tbl ! 0 else tbl ! nat i) (dat t)"
    by simp
  show ?thesis
    using rk b0 u r g m
    by (simp add: unmap_to_all_def Let_def reshape_batch reshape_back numel_def prod_batch)
qed

section \<open>Expanding compact indices\<close>

text \<open>
  C1, as the code has it. The quantizer is constructed with a remap table \<open>tbl\<close>
  and the policy \<open>Extra\<close>. For an index tensor of rank at least 2 with a non-empty
  leading axis and non-negative entries, and a non-empty table, \<open>unmap_to_all\<close>
  returns a tensor of the same shape in which every entry at or above the table
  length (the reserved slot) has become the FIRST entry of the table, \<open>tbl ! 0\<close>,
  and every other entry \<open>i\<close> has become \<open>tbl ! i\<close>. The reserved slot is reset to
  compact index 0 before the lookup, so it yields \<open>tbl ! 0\<close>, not the number 0.
\<close>

theorem unmap_to_all_extra:
  assumes q: "init ne ed b zc (Some tbl) Extra sane leg uv p = Inr q"
      and rk: "1 < length (shape t)" and b0: "shape t ! 0 \<noteq> 0"
      and tbl: "tbl \<noteq> []" and nn: "\<forall>i \<in> set (dat t). 0 \<le> i"
  shows "unmap_to_all q t =
     Inr \<lparr>shape = shape t,
          dat = map (\<lambda>i. if int (length tbl) \<le> i then tbl ! 0 else tbl ! nat i) (dat t)\<rparr>"
proof -
  note f = init_extra_fields [OF q]
  have "length tbl < re_embed q" using f(2) by simp
  then show ?thesis using unmap_to_all_slot [OF f(1) _ rk b0 tbl nn] by simp
qed

theorem unmap_to_all_extra_witness:
  "init 8 1 (1 / 4) 1 (Some [5, 7]) Extra False True False ex_p = Inr q_extra
   \<and> 1 < length (shape \<lparr>shape = [1, 3], dat = [2, 1, 0 :: int]\<rparr>)
   \<and> unmap_to_all q_extra \<lparr>shape = [1, 3], dat = [2, 1, 0]\<rparr>
       = Inr \<lparr>shape = [1, 3], dat = [5, 7, 5]\<rparr>"
  using unmap_to_all_extra [OF q_extra_init, of "\<lparr>shape = [1, 3], dat = [2, 1, 0]\<rparr>"]
    q_extra_init
  by simp

text \<open>
  C1 as stated fails: with the table \<open>[5, 7]\<close>, the entry 2 (the reserved slot) is
  expanded to 5, the first table entry, and not to 0.
\<close>

theorem unmap_to_all_extra_slot_counterexample:
  "init 8 1 (1 / 4) 1 (Some [5, 7]) Extra False True False ex_p = Inr q_extra
   \<and> re_embed q_extra = 3
   \<and> unmap_to_all q_extra \<lparr>shape = [1, 1], dat = [2]\<rparr> = Inr \<lparr>shape = [1, 1], dat = [5]\<rparr>
   \<and> unmap_to_all q_extra \<lparr>shape = [1, 1], dat = [2]\<rparr> \<noteq> Inr \<lparr>shape = [1, 1], dat = [0]\<rparr>"
  by (simp add: q_extra_def init_def Let_def unmap_to_all_def reshape_def numel_def
      infer_size_def gather_def)


section \<open>Remap consistency\<close>

text \<open>
  C3. The quantizer is constructed with a non-empty remap table \<open>tbl\<close> of
  pairwise distinct entries and the policy \<open>Extra\<close>. Then \<open>re_embed\<close> is the table
  length plus one; and for every index tensor \<open>t\<close> of rank at least 2 with a
  non-empty leading axis, \<open>remap_to_used\<close> returns a tensor \<open>r\<close> and
  \<open>unmap_to_all\<close> applied to \<open>r\<close> returns a tensor \<open>r'\<close>, both of the shape of
  \<open>t\<close>, such that at every place where \<open>t\<close> holds an index present in the table,
  \<open>r\<close> holds its position in the table (a compact index in \<open>[0, k)\<close>) and \<open>r'\<close>
  holds the original index again.
\<close>

theorem remap_consistency:
  assumes q: "init ne ed b zc (Some tbl) Extra sane leg uv p = Inr q"
      and d: "distinct tbl" and tbl: "tbl \<noteq> []"
      and rk: "1 < length (shape t)" and b0: "shape t ! 0 \<noteq> 0"
  shows "re_embed q = length tbl + 1 \<and>
     (\<exists>r r'. remap_to_used q rs t = Inr r \<and> unmap_to_all q r = Inr r'
        \<and> shape r = shape t \<and> shape r' = shape t
        \<and> length (dat r) = length (dat t) \<and> length (dat r') = length (dat t)
        \<and> (\<forall>i < length (dat t). dat t ! i \<in> set tbl \<longrightarrow>
              0 \<le> dat r ! i \<and> dat r ! i < int (length tbl)
              \<and> (\<forall>p < length tbl. (dat r ! i = int p) = (tbl ! p = dat t ! i))
              \<and> dat r' ! i = dat t ! i))"
proof -
  note f = init_extra_fields [OF q]
  let ?k = "int (length tbl)"
  let ?r = "\<lparr>shape = shape t,
             dat = map (\<lambda>x. if x \<in> set tbl then int (index_of x tbl) else ?k) (dat t)\<rparr>"
  let ?r' = "\<lparr>shape = shape t,
             dat = map (\<lambda>i. if ?k \<le> i then tbl ! 0 else tbl ! nat i) (dat ?r)\<rparr>"
  have 1: "remap_to_used q rs t = Inr ?r"
    using remap_to_used_fixed [OF f(1) f(3) tbl rk b0] .
  have nn: "\<forall>i \<in> set (dat ?r). 0 \<le> i" by auto
  have 2: "unmap_to_all q ?r = Inr ?r'"
    using unmap_to_all_slot [of q tbl ?r] f rk b0 tbl nn by simp
  have 3: "0 \<le> dat ?r ! i \<and> dat ?r ! i < ?k
           \<and> (\<forall>p < length tbl. (dat ?r ! i = int p) = (tbl ! p = dat t ! i))
           \<and> dat ?r' ! i = dat t ! i"
    if i: "i < length (dat t)" and m: "dat t ! i \<in> set tbl" for i
  proof -
    let ?x = "dat t ! i"
    have a: "dat ?r ! i = int (index_of ?x tbl)" using i m by simp
    have b: "index_of ?x tbl < length tbl" using m by (rule index_of_less)
    have c: "tbl ! index_of ?x tbl = ?x" using m by (rule index_of_nth)
    have e: "(index_of ?x tbl = p) = (tbl ! p = ?x)" if "p < length tbl" for p
      using that c index_of_distinct [OF d that] by auto
    have g: "dat ?r' ! i = ?x" using i a b c by simp
    show ?thesis using a b e g by auto
  qed
  show ?thesis
    by (rule conjI [OF f(2)], rule exI [of _ ?r], rule exI [of _ ?r']) (use 1 2 3 in simp)
qed

theorem remap_consistency_witness:
  "init 8 1 (1 / 4) 1 (Some [5, 7]) Extra False True False ex_p = Inr q_extra
   \<and> distinct [5, 7 :: int]
   \<and> re_embed q_extra = 3
   \<and> remap_to_used q_extra (\<lambda>j. 0) \<lparr>shape = [1, 2], dat = [7, 5]\<rparr>
        = Inr \<lparr>shape = [1, 2], dat = [1, 0]\<rparr>
   \<and> unmap_to_all q_extra \<lparr>shape = [1, 2], dat = [1, 0]\<rparr>
        = Inr \<lparr>shape = [1, 2], dat = [7, 5]\<rparr>"
  using remap_consistency [OF q_extra_init, of "\<lparr>shape = [1, 2], dat = [7, 5]\<rparr>" "\<lambda>j. 0"]
    q_extra_init
  by (simp add: q_extra_def init_def Let_def remap_to_used_def unmap_to_all_def reshape_def
      numel_def infer_size_def gather_def argmax_last_def argmax_def)


section \<open>Index range\<close>






section \<open>Nearest-neighbour matching: distances and first-match argmin\<close>






section \<open>Loss under the legacy flag\<close>


section \<open>Success and shapes of the forward pass\<close>




















section \<open>Shape scenario\<close>



section \<open>Failure kinds and the compatibility flags\<close>

lemma ebind_eq_Inl: "ebind m f = Inl e \<longleftrightarrow> m = Inl e \<or> (\<exists>x. m = Inr x \<and> f x = Inl e)"
  by (cases m) auto

lemma infer_size_length: "infer_size spec n = Inr s \<Longrightarrow> length s = length spec"
  by (auto simp: infer_size_def Let_def split: if_splits)

lemma reshape_rank: "reshape spec t = Inr r \<Longrightarrow> length (shape r) = length spec"
  by (auto simp: reshape_def ebind_eq_Inr dest: infer_size_length)

lemma reshape_error: "reshape spec t = Inl e \<Longrightarrow> e = RuntimeError"
  by (auto simp: reshape_def infer_size_def Let_def ebind_eq_Inl split: if_splits)

lemma permute_error: "permute dims t = Inl e \<Longrightarrow> e = RuntimeError"
  by (auto simp: permute_def Let_def split: if_splits)

lemma rearrange_error: "rearrange n dims t = Inl e \<Longrightarrow> e = EinopsError \<or> e = RuntimeError"
  by (auto simp: rearrange_def dest: permute_error split: if_splits)

lemma conv_batched_error: "conv_batched c t = Inl e \<Longrightarrow> e = RuntimeError"
  by (auto simp: conv_batched_def Let_def split: list.splits if_splits)

lemma conv_apply_error: "conv_apply c t = Inl e \<Longrightarrow> e = RuntimeError"
  by (auto simp: conv_apply_def Let_def ebind_eq_Inl dest: conv_batched_error split: if_splits)

lemma sequence_error:
  assumes "sequence ms = Inl e"
  shows "Inl e \<in> set ms"
  using assms by (induction ms) (auto simp: ebind_eq_Inl)

lemma argmin_error: "argmin xs = Inl e \<Longrightarrow> e = IndexError"
  by (cases xs) (auto simp: argmin_def)

lemma argmax_error: "argmax xs = Inl e \<Longrightarrow> e = IndexError"
  by (cases xs) (auto simp: argmax_def)

lemma argmin_last_error: "argmin_last n m = Inl e \<Longrightarrow> e = IndexError"
  by (auto simp: argmin_last_def split: if_splits dest!: sequence_error argmin_error [OF sym])

lemma argmax_last_error: "argmax_last n m = Inl e \<Longrightarrow> e = IndexError"
  by (auto simp: argmax_last_def split: if_splits dest!: sequence_error argmax_error [OF sym])

lemma nearest_error: "nearest q z = Inl e \<Longrightarrow> e = RuntimeError \<or> e = IndexError"
  by (auto simp: nearest_def Let_def ebind_eq_Inl dest: reshape_error argmin_last_error)

lemma embedding_fn_error: "embedding_fn q i = Inl e \<Longrightarrow> e = IndexError"
  by (auto simp: embedding_fn_def split: if_splits)

lemma randint_error: "randint lo hi n rs = Inl e \<Longrightarrow> e = RuntimeError"
  by (auto simp: randint_def split: if_splits)

lemma remap_to_used_assert:
  assumes "remap_to_used q rs t = Inl AssertionError"
  shows "\<not> 1 < length (shape t)"
proof
  assume rk: "1 < length (shape t)"
  from assms rk show False
    unfolding remap_to_used_def Let_def
    by (cases "unknown_index q")
      (auto simp: ebind_eq_Inl split: option.splits
        dest: reshape_error argmax_last_error randint_error)
qed

lemma forward_quantizer_no_assert:
  fixes q :: "('a::linordered_field) quantizer"
  assumes "temp = None \<or> temp = Some 1"
  shows "forward_quantizer q rs z temp False False iv \<noteq> Inl AssertionError"
proof
  assume a: "forward_quantizer q rs z temp False False iv = Inl AssertionError"
  have r: "False" if "reshape [d, -1] mi = Inr i1" "remap_to_used q rs i1 = Inl AssertionError"
    for d and mi i1 :: "int tensor"
    using reshape_rank [OF that(1)] remap_to_used_assert [OF that(2)] by simp
  from a assms show False
    unfolding forward_quantizer_def Let_def
    by (auto simp: ebind_eq_Inl split: if_splits
        dest: reshape_error rearrange_error nearest_error embedding_fn_error r)
qed

text \<open>
  C7, as the code has it. The forward pass fails with an assertion error if and
  only if the projection \<open>quant_conv\<close>, which runs first, has succeeded and the
  flags are not accepted: \<open>temp\<close> is neither \<open>None\<close> nor \<open>1.0\<close>, or
  \<open>rescale_logits\<close> or \<open>return_logits\<close> is not \<open>False\<close>. The value
  \<open>temp = 1.0\<close> is accepted like \<open>None\<close>.
\<close>

theorem forward_assertion:
  fixes q :: "('a::linordered_field) quantizer"
  shows "forward q rs z temp rescale_logits return_logits is_voxel = Inl AssertionError
     \<longleftrightarrow> (\<exists>z1. conv_apply (quant_conv q) z = Inr z1)
          \<and> \<not> ((temp = None \<or> temp = Some 1) \<and> rescale_logits = False
                 \<and> return_logits = False)"
proof (cases "conv_apply (quant_conv q) z")
  case (Inl e)
  then have "e = RuntimeError" by (rule conv_apply_error)
  with Inl show ?thesis by (simp add: forward_def)
next
  case (Inr z1)
  show ?thesis
  proof (cases "(temp = None \<or> temp = Some 1) \<and> rescale_logits = False
                 \<and> return_logits = False")
    case True
    then have "forward_quantizer q rs z1 temp rescale_logits return_logits is_voxel
        \<noteq> Inl AssertionError"
      using forward_quantizer_no_assert [of temp q rs z1 is_voxel] by simp
    then have "forward q rs z temp rescale_logits return_logits is_voxel \<noteq> Inl AssertionError"
      using Inr
      by (auto simp: forward_def ebind_eq_Inl split: prod.splits dest: conv_apply_error)
    with True show ?thesis by simp
  next
    case False
    then have "forward_quantizer q rs z1 temp rescale_logits return_logits is_voxel
        = Inl AssertionError"
      by (auto simp: forward_quantizer_def)
    with False Inr show ?thesis by (simp add: forward_def)
  qed
qed

theorem forward_assertion_witness:
  "conv_apply (quant_conv q_plain) \<lparr>shape = [1, 1, 1, 2], dat = [0, 1]\<rparr>
     = Inr \<lparr>shape = [1, 1, 1, 2], dat = [0, 1]\<rparr>
   \<and> forward q_plain (\<lambda>j. 0) \<lparr>shape = [1, 1, 1, 2], dat = [0, 1]\<rparr> (Some 2) False False False
     = Inl AssertionError
   \<and> forward q_plain (\<lambda>j. 0) \<lparr>shape = [1, 1, 1, 2], dat = [0, 1]\<rparr> None True False False
     = Inl AssertionError
   \<and> forward q_plain (\<lambda>j. 0) \<lparr>shape = [1, 1, 1, 2], dat = [0, 1]\<rparr> None False True False
     = Inl AssertionError"
proof -
  have c: "conv_apply (quant_conv q_plain) \<lparr>shape = [1, 1, 1, 2], dat = [0, 1]\<rparr>
     = Inr \<lparr>shape = [1, 1, 1, 2], dat = [0, 1]\<rparr>"
    by code_simp
  show ?thesis
    using c forward_assertion [of q_plain "\<lambda>j. 0" "\<lparr>shape = [1, 1, 1, 2], dat = [0, 1]\<rparr>" "Some 2" False False False]
      forward_assertion [of q_plain "\<lambda>j. 0" "\<lparr>shape = [1, 1, 1, 2], dat = [0, 1]\<rparr>" None True False False]
      forward_assertion [of q_plain "\<lambda>j. 0" "\<lparr>shape = [1, 1, 1, 2], dat = [0, 1]\<rparr>" None False True False]
    by simp
qed

text \<open>
  C7 as stated fails: \<open>temp = 1.0\<close> deviates from the default \<open>None\<close> and the
  forward pass returns a result; and a call with rejected flags whose input has
  the wrong channel count fails in the projection (a runtime error), which is
  computed before the flags are checked.
\<close>

theorem forward_assertion_counterexample:
  "Some (1 :: real) \<noteq> None
   \<and> forward q_plain (\<lambda>j. 0) \<lparr>shape = [1, 1, 1, 2], dat = [0, 1]\<rparr> (Some 1) False False False
     = Inr (\<lparr>shape = [1, 1, 1, 2], dat = [0, 1]\<rparr>, Some 0, None, None,
            \<lparr>shape = [1, 1, 2], dat = [0, 1]\<rparr>)
   \<and> forward q_plain (\<lambda>j. 0) \<lparr>shape = [1, 3, 1, 2], dat = [0, 1, 0, 1, 0, 1]\<rparr> (Some 2) True True False
     = Inl RuntimeError"
proof -
  have a: "forward q_plain (\<lambda>j. 0) \<lparr>shape = [1, 1, 1, 2], dat = [0, 1]\<rparr> (Some 1) False False False
     = Inr (\<lparr>shape = [1, 1, 1, 2], dat = [0, 1]\<rparr>, Some 0, None, None,
            \<lparr>shape = [1, 1, 2], dat = [0, 1]\<rparr>)"
    by code_simp
  have b: "forward q_plain (\<lambda>j. 0) \<lparr>shape = [1, 3, 1, 2], dat = [0, 1, 0, 1, 0, 1]\<rparr> (Some 2) True True False
     = Inl RuntimeError"
    by code_simp
  show ?thesis using a b by simp
qed

section \<open>The forward pass and the lookup operations, step by step\<close>

















section \<open>Index extraction without remap\<close>



section \<open>Round trip without remap\<close>




section \<open>Views, copies and writes in place\<close>


















section \<open>The write in place of unmap_to_all\<close>




end
